theory Spec2Isabelle
  imports Complex_Main
begin

section \<open>The zero-dimensional energy-balance model with ice-albedo feedback\<close>

text \<open>
  The notebook \<^verbatim>\<open>EnergyBalance_Stochastic_v2.ipynb\<close> keeps its physical and noise
  parameters in module-level variables that the model functions read when they are
  called. They are collected in one record, passed to every function that reads one.
  Floating-point numbers are modelled as reals.
\<close>

record params =
  S0 :: real
  T0 :: real
  emissivity :: real
  sigma :: real
  delta :: real
  eta_T :: real
  eta_a :: real

text \<open>The values the notebook assigns.\<close>

definition notebook_params :: params where
  "notebook_params =
     \<lparr>S0 = 1368, T0 = 288, emissivity = 0.61, sigma = 5.67 / 10 ^ 8, delta = 1 / 10 ^ 2,
      eta_T = 5, eta_a = 0.01\<rparr>"

text \<open>
  The exceptions the modelled code can raise. \<open>NotANumber\<close> is not a Python
  exception: it marks the place where numpy would go on with a nan, which real
  arithmetic cannot carry.
\<close>

datatype error = ZeroDivisionError | OverflowError | IndexError | NotANumber

subsection \<open>Model definitions\<close>

text \<open>\<^verbatim>\<open>def IncomingRad(albedo): return (1.0 - albedo) / 4\<close>\<close>

definition IncomingRad :: "real \<Rightarrow> real" where
  "IncomingRad albedo = (1 - albedo) / 4"

text \<open>
  \<^verbatim>\<open>def OutgoingRad(T): return (emissivity * sigma / S0) * (T)**4\<close>

  The quotient is taken between Python floats, so a zero \<open>S0\<close> raises. What the power
  does out of the float range depends on the kind of number that \<open>T\<close> is. Every call
  of the notebook passes a numpy number (an \<^verbatim>\<open>np.float64\<close> read from an array, or an
  array handed over by \<^verbatim>\<open>linspace\<close>, \<^verbatim>\<open>fsolve\<close> or \<^verbatim>\<open>odeint\<close>), and numpy's
  power raises nothing: \<open>OutgoingRad\<close> is the function on numpy numbers. On a Python
  float the power \<^verbatim>\<open>(T)**4\<close> raises OverflowError when its value is out of the float
  range: \<open>OutgoingRad_pyfloat\<close> is the function on Python floats.
\<close>

definition OutgoingRad :: "params \<Rightarrow> real \<Rightarrow> error + real" where
  "OutgoingRad p T =
     (if S0 p = 0 then Inl ZeroDivisionError
      else Inr ((emissivity p * sigma p / S0 p) * T ^ 4))"

text \<open>
  A real number is out of the float range when rounding it to the nearest float gives an
  infinity: from \<open>2 ^ 1024 - 2 ^ 970\<close> on, half a unit in the last place above the largest
  float \<open>2 ^ 1024 - 2 ^ 971\<close>. \<^verbatim>\<open>x ** n\<close> on a Python float raises OverflowError
  there (the rounding error of the C library's \<^verbatim>\<open>pow\<close> is not modelled).
\<close>

definition out_of_float_range :: "real \<Rightarrow> bool" where
  "out_of_float_range x = (2 ^ 1024 - 2 ^ 970 \<le> \<bar>x\<bar>)"

definition py_float_pow :: "real \<Rightarrow> nat \<Rightarrow> error + real" where
  "py_float_pow x n = (if out_of_float_range (x ^ n) then Inl OverflowError else Inr (x ^ n))"

text \<open>
  The coefficient \<^verbatim>\<open>emissivity * sigma / S0\<close> is evaluated before the power, so the
  division by zero comes first.
\<close>

definition OutgoingRad_pyfloat :: "params \<Rightarrow> real \<Rightarrow> error + real" where
  "OutgoingRad_pyfloat p T =
     (if S0 p = 0 then Inl ZeroDivisionError
      else case py_float_pow T 4 of
             Inl e \<Rightarrow> Inl e
           | Inr T4 \<Rightarrow> Inr ((emissivity p * sigma p / S0 p) * T4))"

text \<open>
  \<^verbatim>\<open>def AlbedoEq(T):
    a_ice = 0.7; a_water = 0.3; Tc = 265.0; wT = 20.0
    A = (a_ice + a_water) / 2
    B = (a_ice - a_water) / 2
    return A - B*np.tanh((T - Tc)/(wT/2))\<close>
\<close>

definition AlbedoEq :: "real \<Rightarrow> real" where
  "AlbedoEq T =
     (let a_ice = 0.7; a_water = 0.3; Tc = 265; wT = 20;
          A = (a_ice + a_water) / 2;
          B = (a_ice - a_water) / 2
      in A - B * tanh ((T - Tc) / (wT / 2)))"

text \<open>
  \<^verbatim>\<open>def dT_dt(y, albedo):
    T = y
    rin = T0 * IncomingRad(albedo)
    rout = T0 * OutgoingRad(T)
    dTdt = rin - rout
    return dTdt\<close>
\<close>

definition dT_dt :: "params \<Rightarrow> real \<Rightarrow> real \<Rightarrow> error + real" where
  "dT_dt p y albedo =
     (let T = y;
          rin = T0 p * IncomingRad albedo
      in case OutgoingRad p T of
           Inl e \<Rightarrow> Inl e
         | Inr out \<Rightarrow> (let rout = T0 p * out; dTdt = rin - rout in Inr dTdt))"

text \<open>
  \<^verbatim>\<open>def da_dt(T, y):
    a = y
    aeq = AlbedoEq(T)
    dadt = delta*(aeq - a)
    return dadt\<close>
\<close>

definition da_dt :: "params \<Rightarrow> real \<Rightarrow> real \<Rightarrow> real" where
  "da_dt p T y = (let a = y; aeq = AlbedoEq T; dadt = delta p * (aeq - a) in dadt)"

text \<open>
  \<^verbatim>\<open>def dState_dt(State, t):
    return [dT_dt(State[0],State[1]), da_dt(State[0],State[1])]\<close>
\<close>

definition dState_dt :: "params \<Rightarrow> real \<times> real \<Rightarrow> real \<Rightarrow> error + (real \<times> real)" where
  "dState_dt p State t =
     (case dT_dt p (fst State) (snd State) of
        Inl e \<Rightarrow> Inl e
      | Inr dT \<Rightarrow> Inr (dT, da_dt p (fst State) (snd State)))"

text \<open>
  \<^verbatim>\<open>def flux_diff(T): return IncomingRad(AlbedoEq(T)) - OutgoingRad(T)\<close>
\<close>

definition flux_diff :: "params \<Rightarrow> real \<Rightarrow> error + real" where
  "flux_diff p T =
     (let rin = IncomingRad (AlbedoEq T)
      in case OutgoingRad p T of Inl e \<Rightarrow> Inl e | Inr out \<Rightarrow> Inr (rin - out))"

text \<open>The same function on a Python float.\<close>

definition flux_diff_pyfloat :: "params \<Rightarrow> real \<Rightarrow> error + real" where
  "flux_diff_pyfloat p T =
     (let rin = IncomingRad (AlbedoEq T)
      in case OutgoingRad_pyfloat p T of Inl e \<Rightarrow> Inl e | Inr out \<Rightarrow> Inr (rin - out))"

subsection \<open>Loops and array indexing\<close>

text \<open>
  A Python \<^verbatim>\<open>for i in xs: body\<close> over a state \<open>s\<close>: the body runs once for each
  element in order, and the first exception ends the loop.
\<close>

primrec for_loop :: "nat list \<Rightarrow> (nat \<Rightarrow> 's \<Rightarrow> error + 's) \<Rightarrow> 's \<Rightarrow> error + 's" where
  "for_loop [] body s = Inr s"
| "for_loop (i # is) body s =
     (case body i s of Inl e \<Rightarrow> Inl e | Inr s' \<Rightarrow> for_loop is body s')"

text \<open>
  A two-dimensional numpy array is a list of rows. Reading \<^verbatim>\<open>M[k,i]\<close>, writing
  \<^verbatim>\<open>M[k,i] = v\<close> and taking the row \<^verbatim>\<open>M[k,:]\<close> raise IndexError out of range;
  the indices of the modelled loops come from \<^verbatim>\<open>range\<close> and are never negative.
\<close>

definition get2 :: "real list list \<Rightarrow> nat \<Rightarrow> nat \<Rightarrow> error + real" where
  "get2 M k i =
     (if k < length M \<and> i < length (M ! k) then Inr (M ! k ! i) else Inl IndexError)"

definition set2 :: "real list list \<Rightarrow> nat \<Rightarrow> nat \<Rightarrow> real \<Rightarrow> error + real list list" where
  "set2 M k i v =
     (if k < length M \<and> i < length (M ! k) then Inr (M[k := (M ! k)[i := v]])
      else Inl IndexError)"

definition row :: "real list list \<Rightarrow> nat \<Rightarrow> error + real list" where
  "row M k = (if k < length M then Inr (M ! k) else Inl IndexError)"

subsection \<open>The stochastic ensemble\<close>

text \<open>
  The mutable state of the ensemble cells: the two arrays and the number of variates the
  global generator \<^verbatim>\<open>np.random\<close> has produced so far. The generator itself is a
  parameter \<open>z\<close>: \<open>z n\<close> is the standard normal variate it yields at its \<open>n\<close>-th draw.
\<close>

record sim =
  Tstoc :: "real list list"
  Astoc :: "real list list"
  drawn :: nat

text \<open>
  \<^verbatim>\<open>Tstoc = np.zeros((num_sims,NumStep))
  Astoc = np.zeros((num_sims,NumStep))
  Tstoc[:,0] = T_init
  Astoc[:,0] = a_init\<close>

  The column assignment raises IndexError when the arrays have no column.
\<close>

definition init_arrays :: "nat \<Rightarrow> nat \<Rightarrow> real \<Rightarrow> real \<Rightarrow> nat \<Rightarrow> error + sim" where
  "init_arrays num_sims NumStep T_init a_init n =
     (if NumStep = 0 then Inl IndexError
      else Inr \<lparr>Tstoc = map (\<lambda>r. r[0 := T_init]) (replicate num_sims (replicate NumStep 0)),
                Astoc = map (\<lambda>r. r[0 := a_init]) (replicate num_sims (replicate NumStep 0)),
                drawn = n\<rparr>)"

text \<open>
  \<^verbatim>\<open>def dW(delta_t):
    return np.random.normal(loc = 0.0, scale = np.sqrt(delta_t))\<close>

  \<^verbatim>\<open>np.random.normal\<close> returns \<open>loc + scale * x\<close> for the next standard normal variate
  \<open>x\<close> of the global generator. The result is paired with the new count of draws.
  For a negative \<open>delta_t\<close> the scale is a nan.
\<close>

definition dW :: "(nat \<Rightarrow> real) \<Rightarrow> real \<Rightarrow> nat \<Rightarrow> error + (real \<times> nat)" where
  "dW z delta_t n =
     (if delta_t < 0 then Inl NotANumber else Inr (0 + sqrt delta_t * z n, Suc n))"

text \<open>
  The body of the inner loop, for run \<open>k\<close> and step \<open>i\<close>:
  \<^verbatim>\<open>t = (i-1) * dt
  T = Tstoc[k,i-1]
  a = Astoc[k,i-1]
  Tstoc[k,i] = T + dT_dt(T, a)*dt + eta_T * dW(dt)
  Astoc[k,i] = a + da_dt(T, a)*dt + eta_a * dW(dt)\<close>
\<close>

definition em_step ::
  "params \<Rightarrow> (nat \<Rightarrow> real) \<Rightarrow> real \<Rightarrow> nat \<Rightarrow> nat \<Rightarrow> sim \<Rightarrow> error + sim" where
  "em_step p z dt k i s =
     (case get2 (Tstoc s) k (i - 1) of Inl e \<Rightarrow> Inl e | Inr T \<Rightarrow>
      case get2 (Astoc s) k (i - 1) of Inl e \<Rightarrow> Inl e | Inr a \<Rightarrow>
      case dT_dt p T a of Inl e \<Rightarrow> Inl e | Inr dT \<Rightarrow>
      case dW z dt (drawn s) of Inl e \<Rightarrow> Inl e | Inr (w, n1) \<Rightarrow>
      case set2 (Tstoc s) k i (T + dT * dt + eta_T p * w) of Inl e \<Rightarrow> Inl e | Inr Ts \<Rightarrow>
      case dW z dt n1 of Inl e \<Rightarrow> Inl e | Inr (w', n2) \<Rightarrow>
      case set2 (Astoc s) k i (a + da_dt p T a * dt + eta_a p * w') of Inl e \<Rightarrow> Inl e | Inr As \<Rightarrow>
      Inr \<lparr>Tstoc = Ts, Astoc = As, drawn = n2\<rparr>)"

text \<open>
  \<^verbatim>\<open>for k in range(num_sims):
    for i in range(1, ts.size):
        ...\<close>

  Of the time grid \<^verbatim>\<open>ts\<close> the loop reads the size only.
\<close>

definition euler_maruyama ::
  "params \<Rightarrow> (nat \<Rightarrow> real) \<Rightarrow> real \<Rightarrow> nat \<Rightarrow> nat \<Rightarrow> sim \<Rightarrow> error + sim" where
  "euler_maruyama p z dt num_sims ts_size s =
     for_loop [0..<num_sims] (\<lambda>k. for_loop [1..<ts_size] (em_step p z dt k)) s"

text \<open>
  One invocation of the simulator: the cell that allocates the arrays, then the loops.
  The same cell computes the step \<^verbatim>\<open>dt = float(time_end - time_init) / NumStep\<close> and
  the grid \<^verbatim>\<open>ts = np.arange(time_init, time_end, dt)\<close>; the step and the size of the
  grid are arguments here.
\<close>

definition run_ensemble ::
  "params \<Rightarrow> (nat \<Rightarrow> real) \<Rightarrow> real \<Rightarrow> nat \<Rightarrow> nat \<Rightarrow> nat \<Rightarrow> real \<Rightarrow> real \<Rightarrow> nat \<Rightarrow> error + sim" where
  "run_ensemble p z dt num_sims NumStep ts_size T_init a_init n =
     (case init_arrays num_sims NumStep T_init a_init n of
        Inl e \<Rightarrow> Inl e
      | Inr s \<Rightarrow> euler_maruyama p z dt num_sims ts_size s)"

text \<open>The ensemble that an invocation produces: the two arrays.\<close>

definition ensemble_of :: "error + sim \<Rightarrow> error + (real list list \<times> real list list)" where
  "ensemble_of r = (case r of Inl e \<Rightarrow> Inl e | Inr s \<Rightarrow> Inr (Tstoc s, Astoc s))"

subsection \<open>Statistics of the ensemble\<close>

text \<open>
  A float64 value: a real number (\<open>Fin 0\<close> is the zero \<open>+0.0\<close>), the zero \<open>-0.0\<close>, an
  infinity or a nan. numpy divides floats without raising, with a RuntimeWarning at
  most: a nonzero number over a zero is an infinity whose sign is the product of the two
  signs, a zero over a zero is a nan. The sign of a zero is modelled where it decides
  the value of a quotient, in the divisor; a quotient that is itself a zero is written
  \<open>Fin 0\<close> whatever its sign, and a quotient of nonzero reals is the real quotient.
\<close>

datatype npfloat = Fin real | NegZero | PInf | NInf | NaN

fun np_divide :: "npfloat \<Rightarrow> npfloat \<Rightarrow> npfloat" where
  "np_divide NaN _ = NaN"
| "np_divide _ NaN = NaN"
| "np_divide (Fin a) (Fin b) =
     (if b = 0 then (if a = 0 then NaN else if 0 < a then PInf else NInf) else Fin (a / b))"
| "np_divide (Fin a) NegZero = (if a = 0 then NaN else if 0 < a then NInf else PInf)"
| "np_divide NegZero (Fin b) = (if b = 0 then NaN else Fin 0)"
| "np_divide NegZero NegZero = NaN"
| "np_divide (Fin a) PInf = Fin 0"
| "np_divide (Fin a) NInf = Fin 0"
| "np_divide NegZero PInf = Fin 0"
| "np_divide NegZero NInf = Fin 0"
| "np_divide PInf (Fin b) = (if 0 \<le> b then PInf else NInf)"
| "np_divide PInf NegZero = NInf"
| "np_divide NInf (Fin b) = (if 0 \<le> b then NInf else PInf)"
| "np_divide NInf NegZero = PInf"
| "np_divide PInf PInf = NaN"
| "np_divide PInf NInf = NaN"
| "np_divide NInf PInf = NaN"
| "np_divide NInf NInf = NaN"

text \<open>The quotient \<^verbatim>\<open>x / y\<close> of two arrays of the same length, entry by entry.\<close>

definition np_divide_arrays :: "npfloat list \<Rightarrow> npfloat list \<Rightarrow> npfloat list" where
  "np_divide_arrays x y = map (\<lambda>(s, m). np_divide s m) (zip x y)"

text \<open>
  \<^verbatim>\<open>np.mean(x)\<close> is the sum of the entries over their number, and a nan for an empty
  array. The entries are reals and the sum is exact, so a mean that is zero is \<open>+0.0\<close>
  here; in floating point a mean can also round to \<open>-0.0\<close>.
\<close>

definition np_mean :: "real list \<Rightarrow> npfloat" where
  "np_mean x = (if x = [] then NaN else Fin (sum_list x / real (length x)))"

text \<open>
  \<^verbatim>\<open>np.std(x)\<close> as numpy documents it: \<open>sqrt (mean (abs (x - mean x) ** 2))\<close>, where the
  divisor of the outer mean is \<open>N - ddof\<close> and the call leaves \<open>ddof\<close> at its default 0.
\<close>

definition np_std :: "real list \<Rightarrow> npfloat" where
  "np_std x =
     (if x = [] then NaN
      else let N = length x;
               ddof = 0;
               arrmean = sum_list x / real N;
               dev = map (\<lambda>v. (abs (v - arrmean)) ^ 2) x
           in Fin (sqrt (sum_list dev / real (N - ddof))))"

text \<open>
  \<^verbatim>\<open>std_list = np.zeros(num_sims)
  mean_list = np.zeros(num_sims)
  for k in range(num_sims):
      std_list[k] = np.std(Tstoc[k,:])
  for k in range(num_sims):
      mean_list[k] = np.mean(Tstoc[k,:])\<close>
  and the quotient \<^verbatim>\<open>std_list/mean_list\<close> that the last cell plots, taken entry by
  entry.
\<close>

record summary =
  std_list :: "npfloat list"
  mean_list :: "npfloat list"
  cov_list :: "npfloat list"

definition per_run :: "(real list \<Rightarrow> npfloat) \<Rightarrow> real list list \<Rightarrow> nat \<Rightarrow> error + npfloat list" where
  "per_run stat M num_sims =
     for_loop [0..<num_sims]
       (\<lambda>k out. case row M k of Inl e \<Rightarrow> Inl e | Inr r \<Rightarrow> Inr (out[k := stat r]))
       (replicate num_sims (Fin 0))"

definition summarize :: "real list list \<Rightarrow> nat \<Rightarrow> error + summary" where
  "summarize M num_sims =
     (case per_run np_std M num_sims of Inl e \<Rightarrow> Inl e | Inr stds \<Rightarrow>
      case per_run np_mean M num_sims of Inl e \<Rightarrow> Inl e | Inr means \<Rightarrow>
      Inr \<lparr>std_list = stds, mean_list = means,
           cov_list = np_divide_arrays stds means\<rparr>)"

subsection \<open>Predicates for stating the properties of the loops\<close>

text \<open>A numpy array of shape \<open>(r, c)\<close>.\<close>

definition has_shape :: "real list list \<Rightarrow> nat \<Rightarrow> nat \<Rightarrow> bool" where
  "has_shape M r c = (length M = r \<and> (\<forall>x \<in> set M. length x = c))"

text \<open>
  The count of draws made before step \<open>i\<close> of run \<open>k\<close> begins, when the loops started
  at count \<open>n0\<close>: every earlier run made \<open>2 * (ts_size - 1)\<close> draws and every earlier
  step of this run two.
\<close>

definition draw_index :: "nat \<Rightarrow> nat \<Rightarrow> nat \<Rightarrow> nat \<Rightarrow> nat" where
  "draw_index n0 ts_size k i = n0 + 2 * (k * (ts_size - 1) + (i - 1))"

text \<open>
  Entry \<open>i\<close> of the rows \<open>Ts\<close>, \<open>As\<close> of one run is the Euler-Maruyama successor of
  entry \<open>i - 1\<close>, with the draws number \<open>n\<close> and \<open>n + 1\<close> of the generator.
\<close>

definition em_recurrence ::
  "params \<Rightarrow> (nat \<Rightarrow> real) \<Rightarrow> real \<Rightarrow> real list \<Rightarrow> real list \<Rightarrow> nat \<Rightarrow> nat \<Rightarrow> bool" where
  "em_recurrence p z dt Ts As i n =
     (case dT_dt p (Ts ! (i - 1)) (As ! (i - 1)) of
        Inl e \<Rightarrow> False
      | Inr dT \<Rightarrow>
          Ts ! i = Ts ! (i - 1) + dT * dt + eta_T p * (sqrt dt * z n) \<and>
          As ! i = As ! (i - 1) + da_dt p (Ts ! (i - 1)) (As ! (i - 1)) * dt
                     + eta_a p * (sqrt dt * z (Suc n)))"

text \<open>
  What the loops leave alone. After \<open>j\<close> steps of run \<open>k\<close>: the other rows, and in
  row \<open>k\<close> the first entry and the entries after \<open>j\<close>. After \<open>j\<close> runs: the rows from
  \<open>j\<close> on, and in every row the first entry and the entries from \<open>n\<close> on.
\<close>

definition row_frame :: "real list list \<Rightarrow> real list list \<Rightarrow> nat \<Rightarrow> nat \<Rightarrow> bool" where
  "row_frame M M' k j =
     (length M' = length M \<and> (\<forall>r. r \<noteq> k \<longrightarrow> M' ! r = M ! r) \<and>
      length (M' ! k) = length (M ! k) \<and>
      (\<forall>i. i = 0 \<or> j < i \<longrightarrow> M' ! k ! i = M ! k ! i))"

definition array_frame :: "real list list \<Rightarrow> real list list \<Rightarrow> nat \<Rightarrow> nat \<Rightarrow> bool" where
  "array_frame M M' j n =
     (length M' = length M \<and> (\<forall>r. length (M' ! r) = length (M ! r)) \<and>
      (\<forall>r. j \<le> r \<longrightarrow> M' ! r = M ! r) \<and>
      (\<forall>r i. i = 0 \<or> n - 1 < i \<longrightarrow> M' ! r ! i = M ! r ! i))"

subsection \<open>The specification's notions\<close>

text \<open>
  Forward-Euler integration of the coupled system, in the specification's words: the
  state after \<open>i\<close> steps of size \<open>dt\<close> from \<open>y0\<close>, each step adding \<open>dt\<close> times the
  derivative \<open>dState_dt\<close> at the state before it (and the time \<open>i * dt\<close>).
\<close>

fun forward_euler :: "params \<Rightarrow> real \<Rightarrow> real \<times> real \<Rightarrow> nat \<Rightarrow> error + (real \<times> real)" where
  "forward_euler p dt y0 0 = Inr y0"
| "forward_euler p dt y0 (Suc i) =
     (case forward_euler p dt y0 i of Inl e \<Rightarrow> Inl e | Inr y \<Rightarrow>
      case dState_dt p y (real i * dt) of Inl e \<Rightarrow> Inl e | Inr d \<Rightarrow>
      Inr (fst y + fst d * dt, snd y + snd d * dt))"

text \<open>
  The arithmetic mean and the population standard deviation (normalised by the number
  \<open>N\<close> of samples) of a whole series, in the specification's words.
\<close>

definition arithmetic_mean :: "real list \<Rightarrow> real" where
  "arithmetic_mean x = (\<Sum>i<length x. x ! i) / real (length x)"

definition population_std :: "real list \<Rightarrow> real" where
  "population_std x =
     sqrt ((\<Sum>i<length x. (x ! i - arithmetic_mean x) ^ 2) / real (length x))"

section \<open>Properties of the flux model\<close>

lemma AlbedoEq_eq: "AlbedoEq T = 1 / 2 - (1 / 5) * tanh ((T - 265) / 10)"
  by (simp add: AlbedoEq_def Let_def)

text \<open>
  C4. For every real \<open>T\<close> the equilibrium albedo is \<open>A - B * tanh ((T - Tc) / (wT / 2))\<close>
  with \<open>A = (a_ice + a_water) / 2\<close> and \<open>B = (a_ice - a_water) / 2\<close>, where
  \<open>a_ice = 0.7\<close>, \<open>a_water = 0.3\<close>, \<open>Tc = 265\<close> and \<open>wT = 20\<close>; it does not increase when
  the temperature increases, and it lies between \<open>a_water\<close> and \<open>a_ice\<close>.
\<close>

theorem AlbedoEq_smooth_step_antimono_bounded:
  "AlbedoEq T = (0.7 + 0.3) / 2 - ((0.7 - 0.3) / 2) * tanh ((T - 265) / (20 / 2))
   \<and> (T1 \<le> T2 \<longrightarrow> AlbedoEq T2 \<le> AlbedoEq T1)
   \<and> 0.3 \<le> AlbedoEq T \<and> AlbedoEq T \<le> 0.7"
proof (intro conjI impI)
  show "AlbedoEq T = (0.7 + 0.3) / 2 - ((0.7 - 0.3) / 2) * tanh ((T - 265) / (20 / 2))"
    by (simp add: AlbedoEq_eq)
next
  assume "T1 \<le> T2"
  then have "tanh ((T1 - 265) / 10) \<le> tanh ((T2 - 265) / 10)"
    by (simp add: divide_right_mono)
  then show "AlbedoEq T2 \<le> AlbedoEq T1"
    by (simp add: AlbedoEq_eq)
next
  have "tanh ((T - 265) / 10) < 1"
    by (rule tanh_real_lt_1)
  then show "0.3 \<le> AlbedoEq T"
    by (simp add: AlbedoEq_eq)
next
  have "- 1 < tanh ((T - 265) / 10)"
    by (rule tanh_real_gt_neg1)
  then show "AlbedoEq T \<le> 0.7"
    by (simp add: AlbedoEq_eq)
qed

theorem AlbedoEq_antimono_witness:
  "(0::real) \<le> 1 \<and> AlbedoEq 1 \<le> AlbedoEq 0"
  using AlbedoEq_smooth_step_antimono_bounded [of 0 0 1] by simp

text \<open>
  C7, as the code has it. For every real \<open>T\<close> the net flux is the incoming flux at the
  equilibrium albedo minus the outgoing flux wherever the outgoing flux returns, where
  the incoming flux of any real albedo is \<open>(1 - albedo) / 4\<close>, with no error condition,
  and the outgoing flux is \<open>(emissivity * sigma / S0) * T ^ 4\<close>. The outgoing flux and the
  net flux are not total on Python floats: when \<open>T ^ 4\<close> is out of the float range
  (\<open>T\<close> beyond about \<open>1.16e77\<close> in absolute value) they raise OverflowError; on numpy
  numbers, which the notebook's own calls pass, they raise nothing. (The notebook sets
  \<open>S0 = 1368\<close>; a zero \<open>S0\<close> would raise ZeroDivisionError.)
\<close>

theorem flux_diff_formula_overflow:
  assumes "S0 p \<noteq> 0"
  shows "IncomingRad albedo = (1 - albedo) / 4
     \<and> (\<not> out_of_float_range (T ^ 4) \<longrightarrow>
          OutgoingRad_pyfloat p T = Inr ((emissivity p * sigma p / S0 p) * T ^ 4)
          \<and> flux_diff_pyfloat p T
               = Inr (IncomingRad (AlbedoEq T) - (emissivity p * sigma p / S0 p) * T ^ 4))
     \<and> (out_of_float_range (T ^ 4) \<longrightarrow>
          OutgoingRad_pyfloat p T = Inl OverflowError
          \<and> flux_diff_pyfloat p T = Inl OverflowError)
     \<and> OutgoingRad p T = Inr ((emissivity p * sigma p / S0 p) * T ^ 4)
     \<and> flux_diff p T
          = Inr (IncomingRad (AlbedoEq T) - (emissivity p * sigma p / S0 p) * T ^ 4)"
  using assms
  by (simp add: IncomingRad_def OutgoingRad_def flux_diff_def OutgoingRad_pyfloat_def
      flux_diff_pyfloat_def py_float_pow_def)

theorem flux_diff_formula_overflow_witness:
  "S0 notebook_params \<noteq> 0 \<and> \<not> out_of_float_range (10 ^ 4)
   \<and> OutgoingRad_pyfloat notebook_params 10 = Inr ((61 / 100 * (567 / 10 ^ 10) / 1368) * 10 ^ 4)
   \<and> flux_diff_pyfloat notebook_params 10
       = Inr (IncomingRad (AlbedoEq 10) - (61 / 100 * (567 / 10 ^ 10) / 1368) * 10 ^ 4)
   \<and> out_of_float_range ((2 ^ 256) ^ 4)
   \<and> flux_diff_pyfloat notebook_params (2 ^ 256) = Inl OverflowError"
proof -
  have small: "\<not> out_of_float_range (10 ^ 4)"
    by (simp add: out_of_float_range_def)
  have big: "out_of_float_range ((2 ^ 256) ^ 4)"
    by (simp add: out_of_float_range_def)
  have p: "S0 notebook_params \<noteq> 0"
    by (simp add: notebook_params_def)
  from flux_diff_formula_overflow [OF p, of 0 10] small
    flux_diff_formula_overflow [OF p, of 0 "2 ^ 256"] big p
  show ?thesis
    by (simp add: notebook_params_def)
qed

text \<open>
  C7 as stated fails: on the Python float \<open>2 ^ 300\<close> the outgoing flux and the net flux
  raise OverflowError.
\<close>

theorem OutgoingRad_pyfloat_overflows:
  "OutgoingRad_pyfloat notebook_params (2 ^ 300) = Inl OverflowError
   \<and> flux_diff_pyfloat notebook_params (2 ^ 300) = Inl OverflowError"
  by (simp add: OutgoingRad_pyfloat_def flux_diff_pyfloat_def py_float_pow_def
      out_of_float_range_def notebook_params_def)

text \<open>
  C8. For every real \<open>T\<close> and albedo, the temperature derivative is
  \<open>T0 * IncomingRad albedo - T0 * OutgoingRad T\<close>: the difference of the incoming and the
  outgoing flux, each scaled by the reference temperature \<open>T0\<close>.
\<close>

theorem dT_dt_scaled_flux_difference:
  assumes "S0 p \<noteq> 0"
  shows "\<exists>out. OutgoingRad p T = Inr out
     \<and> dT_dt p T albedo = Inr (T0 p * IncomingRad albedo - T0 p * out)"
  using assms by (simp add: OutgoingRad_def dT_dt_def Let_def)

theorem dT_dt_notebook_witness:
  "S0 notebook_params \<noteq> 0
   \<and> dT_dt notebook_params 10 (7 / 20)
       = Inr (288 * IncomingRad (7 / 20) - 288 * ((61 / 100 * (567 / 10 ^ 10) / 1368) * 10 ^ 4))"
  using dT_dt_scaled_flux_difference [of notebook_params 10 "7 / 20"]
  by (auto simp: notebook_params_def OutgoingRad_def)

section \<open>The Euler-Maruyama loops\<close>

subsection \<open>Loops with an invariant\<close>

lemma for_loop_total:
  assumes "I 0 s"
    and "\<And>j s. j < length xs \<Longrightarrow> I j s \<Longrightarrow> \<exists>s'. body (xs ! j) s = Inr s' \<and> I (Suc j) s'"
  shows "\<exists>s'. for_loop xs body s = Inr s' \<and> I (length xs) s'"
  using assms
proof (induction xs arbitrary: I s)
  case Nil
  then show ?case by simp
next
  case (Cons x xs)
  from Cons.prems(2) [of 0 s] Cons.prems(1)
  obtain s1 where s1: "body x s = Inr s1" "I (Suc 0) s1" by auto
  have "\<exists>s'. for_loop xs body s1 = Inr s' \<and> I (Suc (length xs)) s'"
  proof (rule Cons.IH [where I = "\<lambda>j. I (Suc j)"])
    show "I (Suc 0) s1" by (rule s1)
  next
    fix j t assume "j < length xs" "I (Suc j) t"
    then show "\<exists>s'. body (xs ! j) t = Inr s' \<and> I (Suc (Suc j)) s'"
      using Cons.prems(2) [of "Suc j" t] by simp
  qed
  then show ?case using s1 by simp
qed

lemma for_loop_rel:
  assumes "R 0 s t"
    and "\<And>j s t. j < length xs \<Longrightarrow> R j s t \<Longrightarrow> rel_sum (=) (R (Suc j)) (f (xs ! j) s) (g (xs ! j) t)"
  shows "rel_sum (=) (R (length xs)) (for_loop xs f s) (for_loop xs g t)"
  using assms
proof (induction xs arbitrary: R s t)
  case Nil
  then show ?case by simp
next
  case (Cons x xs)
  have step: "rel_sum (=) (R (Suc 0)) (f x s) (g x t)"
    using Cons.prems(2) [of 0 s t] Cons.prems(1) by simp
  show ?case
  proof (cases "f x s")
    case (Inl e)
    with step show ?thesis by (cases "g x t") auto
  next
    case (Inr s1)
    with step obtain t1 where t1: "g x t = Inr t1" "R (Suc 0) s1 t1"
      by (cases "g x t") auto
    have "rel_sum (=) (R (Suc (length xs))) (for_loop xs f s1) (for_loop xs g t1)"
    proof (rule Cons.IH [where R = "\<lambda>j. R (Suc j)"])
      show "R (Suc 0) s1 t1" by (rule t1)
    next
      fix j s' t' assume "j < length xs" "R (Suc j) s' t'"
      then show "rel_sum (=) (R (Suc (Suc j))) (f (xs ! j) s') (g (xs ! j) t')"
        using Cons.prems(2) [of "Suc j" s' t'] by simp
    qed
    then show ?thesis using Inr t1 by simp
  qed
qed

lemma em_step_Inr:
  assumes "S0 p \<noteq> 0" "0 \<le> dt" "1 \<le> i"
    and "k < length (Tstoc s)" "i < length (Tstoc s ! k)"
    and "k < length (Astoc s)" "i < length (Astoc s ! k)"
  shows "\<exists>dT. dT_dt p (Tstoc s ! k ! (i - 1)) (Astoc s ! k ! (i - 1)) = Inr dT \<and>
     em_step p z dt k i s =
       Inr \<lparr>Tstoc = (Tstoc s)[k := (Tstoc s ! k)[i := Tstoc s ! k ! (i - 1) + dT * dt
                       + eta_T p * (sqrt dt * z (drawn s))]],
            Astoc = (Astoc s)[k := (Astoc s ! k)[i := Astoc s ! k ! (i - 1)
                       + da_dt p (Tstoc s ! k ! (i - 1)) (Astoc s ! k ! (i - 1)) * dt
                       + eta_a p * (sqrt dt * z (Suc (drawn s)))]],
            drawn = drawn s + 2\<rparr>"
  using assms
  by (auto simp: em_step_def get2_def set2_def dW_def dT_dt_def OutgoingRad_def Let_def)

lemma row_frame_refl: "row_frame M M k 0"
  by (simp add: row_frame_def)

lemma row_frame_step:
  assumes "row_frame M M' k j" "k < length M"
  shows "row_frame M (M'[k := (M' ! k)[Suc j := v]]) k (Suc j)"
  using assms by (auto simp: row_frame_def)

lemma em_recurrence_update:
  assumes "em_recurrence p z dt Ts As i n" "1 \<le> i" "i < m"
  shows "em_recurrence p z dt (Ts[m := v]) (As[m := w]) i n"
proof -
  from assms have "m \<noteq> i" "m \<noteq> i - 1" by simp_all
  with assms(1) show ?thesis by (auto simp: em_recurrence_def split: sum.splits)
qed

lemma inner_loop:
  assumes p: "S0 p \<noteq> 0" and dt: "0 \<le> dt"
    and kT: "k < length (Tstoc s)" and nT: "n \<le> length (Tstoc s ! k)"
    and kA: "k < length (Astoc s)" and nA: "n \<le> length (Astoc s ! k)"
  shows "\<exists>s'. for_loop [1..<n] (em_step p z dt k) s = Inr s' \<and>
           drawn s' = drawn s + 2 * (n - 1) \<and>
           row_frame (Tstoc s) (Tstoc s') k (n - 1) \<and>
           row_frame (Astoc s) (Astoc s') k (n - 1) \<and>
           (\<forall>i. 1 \<le> i \<and> i < n \<longrightarrow>
              em_recurrence p z dt (Tstoc s' ! k) (Astoc s' ! k) i (drawn s + 2 * (i - 1)))"
proof -
  define I where "I = (\<lambda>j (s'::sim). drawn s' = drawn s + 2 * j \<and>
           row_frame (Tstoc s) (Tstoc s') k j \<and>
           row_frame (Astoc s) (Astoc s') k j \<and>
           (\<forall>i. 1 \<le> i \<and> i \<le> j \<longrightarrow>
              em_recurrence p z dt (Tstoc s' ! k) (Astoc s' ! k) i (drawn s + 2 * (i - 1))))"
  have I0: "I 0 s"
    by (simp add: I_def row_frame_refl)
  have step: "\<exists>s'. em_step p z dt k ([1..<n] ! j) t = Inr s' \<and> I (Suc j) s'"
    if j: "j < length [1..<n]" and inv: "I j t" for j t
  proof -
    from j have jn: "Suc j < n" and idx: "[1..<n] ! j = Suc j" by simp_all
    from inv have d: "drawn t = drawn s + 2 * j"
      and fT: "row_frame (Tstoc s) (Tstoc t) k j"
      and fA: "row_frame (Astoc s) (Astoc t) k j"
      and rec: "\<forall>i. 1 \<le> i \<and> i \<le> j \<longrightarrow>
              em_recurrence p z dt (Tstoc t ! k) (Astoc t ! k) i (drawn s + 2 * (i - 1))"
      by (simp_all add: I_def)
    from fT kT nT jn have kT': "k < length (Tstoc t)" and lT: "Suc j < length (Tstoc t ! k)"
      by (simp_all add: row_frame_def)
    from fA kA nA jn have kA': "k < length (Astoc t)" and lA: "Suc j < length (Astoc t ! k)"
      by (simp_all add: row_frame_def)
    from em_step_Inr [OF p dt _ kT' lT kA' lA, of z]
    obtain dT where dT: "dT_dt p (Tstoc t ! k ! j) (Astoc t ! k ! j) = Inr dT"
      and st: "em_step p z dt k (Suc j) t =
       Inr \<lparr>Tstoc = (Tstoc t)[k := (Tstoc t ! k)[Suc j := Tstoc t ! k ! j + dT * dt
                       + eta_T p * (sqrt dt * z (drawn t))]],
            Astoc = (Astoc t)[k := (Astoc t ! k)[Suc j := Astoc t ! k ! j
                       + da_dt p (Tstoc t ! k ! j) (Astoc t ! k ! j) * dt
                       + eta_a p * (sqrt dt * z (Suc (drawn t)))]],
            drawn = drawn t + 2\<rparr>"
      by auto
    let ?t' = "\<lparr>Tstoc = (Tstoc t)[k := (Tstoc t ! k)[Suc j := Tstoc t ! k ! j + dT * dt
                       + eta_T p * (sqrt dt * z (drawn t))]],
            Astoc = (Astoc t)[k := (Astoc t ! k)[Suc j := Astoc t ! k ! j
                       + da_dt p (Tstoc t ! k ! j) (Astoc t ! k ! j) * dt
                       + eta_a p * (sqrt dt * z (Suc (drawn t)))]],
            drawn = drawn t + 2\<rparr>"
    have "drawn ?t' = drawn s + 2 * Suc j" using d by simp
    moreover have "row_frame (Tstoc s) (Tstoc ?t') k (Suc j)"
      using row_frame_step [OF fT kT] by simp
    moreover have "row_frame (Astoc s) (Astoc ?t') k (Suc j)"
      using row_frame_step [OF fA kA] by simp
    moreover have "em_recurrence p z dt (Tstoc ?t' ! k) (Astoc ?t' ! k) i (drawn s + 2 * (i - 1))"
      if i: "1 \<le> i \<and> i \<le> Suc j" for i
    proof (cases "i = Suc j")
      case True
      then show ?thesis
        using dT d kT' kA' lT lA by (simp add: em_recurrence_def)
    next
      case False
      with i have "1 \<le> i" "i \<le> j" by simp_all
      then have "em_recurrence p z dt (Tstoc t ! k) (Astoc t ! k) i (drawn s + 2 * (i - 1))"
        using rec by simp
      then show ?thesis
        using kT' kA' \<open>1 \<le> i\<close> \<open>i \<le> j\<close> by (simp add: em_recurrence_update)
    qed
    ultimately have "I (Suc j) ?t'"
      unfolding I_def by blast
    with st idx show ?thesis by simp
  qed
  from for_loop_total [of I s "[1..<n]" "em_step p z dt k", OF I0 step]
  obtain s' where "for_loop [1..<n] (em_step p z dt k) s = Inr s'" "I (n - 1) s'"
    by auto
  then show ?thesis
    unfolding I_def by (intro exI [of _ s']) auto
qed

lemma array_frame_refl: "array_frame M M 0 n"
  by (simp add: array_frame_def)

lemma array_frame_step:
  assumes "array_frame M M1 j n" "row_frame M1 M2 j (n - 1)"
  shows "array_frame M M2 (Suc j) n"
  unfolding array_frame_def
proof (intro conjI allI impI)
  show "length M2 = length M"
    using assms by (simp add: array_frame_def row_frame_def)
next
  fix r show "length (M2 ! r) = length (M ! r)"
    using assms by (cases "r = j") (simp_all add: array_frame_def row_frame_def)
next
  fix r assume "Suc j \<le> r"
  then have "r \<noteq> j" "j \<le> r" by simp_all
  then show "M2 ! r = M ! r"
    using assms by (simp add: array_frame_def row_frame_def)
next
  fix r i assume "i = 0 \<or> n - 1 < i"
  then show "M2 ! r ! i = M ! r ! i"
    using assms by (cases "r = j") (auto simp: array_frame_def row_frame_def)
qed

lemma has_shape_nth: "has_shape M r c \<Longrightarrow> k < r \<Longrightarrow> length (M ! k) = c"
  by (auto simp: has_shape_def)

lemma outer_loop:
  assumes p: "S0 p \<noteq> 0" and dt: "0 \<le> dt"
    and sT: "has_shape (Tstoc s) K c" and sA: "has_shape (Astoc s) K c" and nc: "n \<le> c"
  shows "\<exists>s'. euler_maruyama p z dt K n s = Inr s' \<and>
           drawn s' = drawn s + 2 * (K * (n - 1)) \<and>
           array_frame (Tstoc s) (Tstoc s') K n \<and>
           array_frame (Astoc s) (Astoc s') K n \<and>
           (\<forall>k i. k < K \<and> 1 \<le> i \<and> i < n \<longrightarrow>
              em_recurrence p z dt (Tstoc s' ! k) (Astoc s' ! k) i (draw_index (drawn s) n k i))"
proof -
  define J where "J = (\<lambda>j (s'::sim). drawn s' = drawn s + 2 * (j * (n - 1)) \<and>
           array_frame (Tstoc s) (Tstoc s') j n \<and>
           array_frame (Astoc s) (Astoc s') j n \<and>
           (\<forall>k i. k < j \<and> 1 \<le> i \<and> i < n \<longrightarrow>
              em_recurrence p z dt (Tstoc s' ! k) (Astoc s' ! k) i (draw_index (drawn s) n k i)))"
  have J0: "J 0 s"
    by (simp add: J_def array_frame_refl)
  have step: "\<exists>s'. for_loop [1..<n] (em_step p z dt ([0..<K] ! j)) t = Inr s' \<and> J (Suc j) s'"
    if j: "j < length [0..<K]" and inv: "J j t" for j t
  proof -
    from j have jK: "j < K" and idx: "[0..<K] ! j = j" by simp_all
    from inv have d: "drawn t = drawn s + 2 * (j * (n - 1))"
      and fT: "array_frame (Tstoc s) (Tstoc t) j n"
      and fA: "array_frame (Astoc s) (Astoc t) j n"
      and rec: "\<forall>k i. k < j \<and> 1 \<le> i \<and> i < n \<longrightarrow>
              em_recurrence p z dt (Tstoc t ! k) (Astoc t ! k) i (draw_index (drawn s) n k i)"
      by (simp_all add: J_def)
    from fT sT jK nc have kT: "j < length (Tstoc t)" and nT: "n \<le> length (Tstoc t ! j)"
      by (simp_all add: array_frame_def has_shape_def)
    from fA sA jK nc have kA: "j < length (Astoc t)" and nA: "n \<le> length (Astoc t ! j)"
      by (simp_all add: array_frame_def has_shape_def)
    from inner_loop [OF p dt kT nT kA nA, of z]
    obtain t' where run: "for_loop [1..<n] (em_step p z dt j) t = Inr t'"
      and d': "drawn t' = drawn t + 2 * (n - 1)"
      and rT: "row_frame (Tstoc t) (Tstoc t') j (n - 1)"
      and rA: "row_frame (Astoc t) (Astoc t') j (n - 1)"
      and rec': "\<forall>i. 1 \<le> i \<and> i < n \<longrightarrow>
              em_recurrence p z dt (Tstoc t' ! j) (Astoc t' ! j) i (drawn t + 2 * (i - 1))"
      by blast
    have "drawn t' = drawn s + 2 * (Suc j * (n - 1))"
      using d d' by simp
    moreover have "array_frame (Tstoc s) (Tstoc t') (Suc j) n"
      using array_frame_step [OF fT rT] .
    moreover have "array_frame (Astoc s) (Astoc t') (Suc j) n"
      using array_frame_step [OF fA rA] .
    moreover have "em_recurrence p z dt (Tstoc t' ! k) (Astoc t' ! k) i (draw_index (drawn s) n k i)"
      if ki: "k < Suc j \<and> 1 \<le> i \<and> i < n" for k i
    proof (cases "k = j")
      case True
      have "drawn t + 2 * (i - 1) = draw_index (drawn s) n j i"
        using d by (simp add: draw_index_def)
      with rec' ki True show ?thesis by auto
    next
      case False
      with ki have kj: "k < j" by simp
      from False rT rA have "Tstoc t' ! k = Tstoc t ! k" "Astoc t' ! k = Astoc t ! k"
        by (simp_all add: row_frame_def)
      with rec kj ki show ?thesis by simp
    qed
    ultimately have "J (Suc j) t'"
      unfolding J_def by blast
    with run idx show ?thesis by simp
  qed
  from for_loop_total [of J s "[0..<K]" "\<lambda>k. for_loop [1..<n] (em_step p z dt k)", OF J0 step]
  obtain s' where "euler_maruyama p z dt K n s = Inr s'" "J K s'"
    by (auto simp: euler_maruyama_def)
  then show ?thesis
    unfolding J_def by (intro exI [of _ s']) auto
qed

text \<open>The arrays that the notebook allocates have the shape the loops need.\<close>

lemma init_arrays_shape:
  assumes "init_arrays K N T a n = Inr s"
  shows "has_shape (Tstoc s) K N" and "has_shape (Astoc s) K N" and "drawn s = n"
    and "k < K \<Longrightarrow> Tstoc s ! k ! 0 = T \<and> Astoc s ! k ! 0 = a"
  using assms by (auto simp: init_arrays_def has_shape_def split: if_splits)

lemma run_ensemble_returns:
  assumes "S0 p \<noteq> 0" and "0 \<le> dt" and "0 < NumStep" and "ts_size \<le> NumStep"
  shows "\<exists>s'. run_ensemble p z dt num_sims NumStep ts_size T_init a_init n = Inr s'"
proof -
  from assms(3) obtain s where s: "init_arrays num_sims NumStep T_init a_init n = Inr s"
    by (simp add: init_arrays_def)
  from outer_loop [OF assms(1,2) init_arrays_shape(1,2) [OF s] assms(4), of z] s
  show ?thesis by (auto simp: run_ensemble_def)
qed

subsection \<open>The Euler-Maruyama step\<close>

lemma draw_index_distinct:
  assumes "i \<ge> 1" "i < n" "i' \<ge> 1" "i' < n" "(k, i) \<noteq> (k', i')"
  shows "draw_index n0 n k i \<noteq> draw_index n0 n k' i'"
    and "draw_index n0 n k i \<noteq> Suc (draw_index n0 n k' i')"
proof -
  define m where "m = n - 1"
  define r where "r = i - 1"
  define r' where "r' = i' - 1"
  have rm: "r < m" "r' < m" using assms by (simp_all add: m_def r_def r'_def)
  have ne: "k * m + r \<noteq> k' * m + r'"
  proof
    assume e: "k * m + r = k' * m + r'"
    then have "(k * m + r) div m = (k' * m + r') div m" "(k * m + r) mod m = (k' * m + r') mod m"
      by simp_all
    with rm have "k = k'" "r = r'" by simp_all
    with assms show False by (simp add: r_def r'_def)
  qed
  then show "draw_index n0 n k i \<noteq> draw_index n0 n k' i'"
    by (simp add: draw_index_def m_def r_def r'_def)
  show "draw_index n0 n k i \<noteq> Suc (draw_index n0 n k' i')"
    by (simp add: draw_index_def) presburger
qed

text \<open>
  C1. For every run \<open>k\<close> and every step \<open>i \<ge> 1\<close> the loops compute
  \<open>T[i] = T[i-1] + dT_dt (T[i-1], a[i-1]) * dt + eta_T * xi\<close> and
  \<open>a[i] = a[i-1] + da_dt (T[i-1], a[i-1]) * dt + eta_a * xi'\<close>, where \<open>xi\<close> and \<open>xi'\<close> are
  \<open>sqrt dt\<close> times a standard normal variate of the generator (location 0, scale
  \<open>sqrt dt\<close>), and no two of these variates, over the two state variables, the steps and
  the runs, are the same draw of the generator: step \<open>i\<close> of run \<open>k\<close> takes the draws
  number \<open>draw_index n0 ts_size k i\<close> and the next one. The loops raise nothing when
  \<open>S0\<close> is not zero, \<open>dt\<close> is not negative and the arrays have a column for every
  point of the time grid.
\<close>

theorem euler_maruyama_step:
  assumes "S0 p \<noteq> 0" and "0 \<le> dt"
    and "has_shape (Tstoc s) num_sims NumStep" and "has_shape (Astoc s) num_sims NumStep"
    and "ts_size \<le> NumStep"
  shows "\<exists>s'. euler_maruyama p z dt num_sims ts_size s = Inr s' \<and>
     (\<forall>k i. k < num_sims \<and> 1 \<le> i \<and> i < ts_size \<longrightarrow>
        (\<exists>dT. dT_dt p (Tstoc s' ! k ! (i - 1)) (Astoc s' ! k ! (i - 1)) = Inr dT \<and>
           Tstoc s' ! k ! i = Tstoc s' ! k ! (i - 1) + dT * dt
              + eta_T p * (sqrt dt * z (draw_index (drawn s) ts_size k i)) \<and>
           Astoc s' ! k ! i = Astoc s' ! k ! (i - 1)
              + da_dt p (Tstoc s' ! k ! (i - 1)) (Astoc s' ! k ! (i - 1)) * dt
              + eta_a p * (sqrt dt * z (Suc (draw_index (drawn s) ts_size k i))))) \<and>
     (\<forall>k i k' i'. 1 \<le> i \<and> i < ts_size \<and> 1 \<le> i' \<and> i' < ts_size \<and> (k, i) \<noteq> (k', i') \<longrightarrow>
        draw_index (drawn s) ts_size k i \<noteq> draw_index (drawn s) ts_size k' i' \<and>
        draw_index (drawn s) ts_size k i \<noteq> Suc (draw_index (drawn s) ts_size k' i'))"
proof -
  from outer_loop [OF assms, of z]
  obtain s' where run: "euler_maruyama p z dt num_sims ts_size s = Inr s'"
    and rec: "\<forall>k i. k < num_sims \<and> 1 \<le> i \<and> i < ts_size \<longrightarrow>
              em_recurrence p z dt (Tstoc s' ! k) (Astoc s' ! k) i (draw_index (drawn s) ts_size k i)"
    by blast
  have "\<exists>dT. dT_dt p (Tstoc s' ! k ! (i - 1)) (Astoc s' ! k ! (i - 1)) = Inr dT \<and>
           Tstoc s' ! k ! i = Tstoc s' ! k ! (i - 1) + dT * dt
              + eta_T p * (sqrt dt * z (draw_index (drawn s) ts_size k i)) \<and>
           Astoc s' ! k ! i = Astoc s' ! k ! (i - 1)
              + da_dt p (Tstoc s' ! k ! (i - 1)) (Astoc s' ! k ! (i - 1)) * dt
              + eta_a p * (sqrt dt * z (Suc (draw_index (drawn s) ts_size k i)))"
    if "k < num_sims \<and> 1 \<le> i \<and> i < ts_size" for k i
  proof -
    from rec that
    have "em_recurrence p z dt (Tstoc s' ! k) (Astoc s' ! k) i (draw_index (drawn s) ts_size k i)"
      by blast
    then show ?thesis
      by (cases "dT_dt p (Tstoc s' ! k ! (i - 1)) (Astoc s' ! k ! (i - 1))")
         (simp_all add: em_recurrence_def)
  qed
  moreover have "draw_index (drawn s) ts_size k i \<noteq> draw_index (drawn s) ts_size k' i' \<and>
        draw_index (drawn s) ts_size k i \<noteq> Suc (draw_index (drawn s) ts_size k' i')"
    if "1 \<le> i \<and> i < ts_size \<and> 1 \<le> i' \<and> i' < ts_size \<and> (k, i) \<noteq> (k', i')" for k i k' i'
    using draw_index_distinct [of i ts_size i' k k' "drawn s"] that by blast
  ultimately show ?thesis using run by blast
qed

theorem euler_maruyama_step_witness:
  "S0 notebook_params \<noteq> 0 \<and> (0::real) \<le> 1
   \<and> has_shape [[280, 0]] 1 2 \<and> has_shape [[7 / 20, 0]] 1 2 \<and> (2::nat) \<le> 2
   \<and> (\<exists>s' dT. euler_maruyama notebook_params real 1 1 2
                 \<lparr>Tstoc = [[280, 0]], Astoc = [[7 / 20, 0]], drawn = 0\<rparr> = Inr s'
        \<and> dT_dt notebook_params (Tstoc s' ! 0 ! 0) (Astoc s' ! 0 ! 0) = Inr dT
        \<and> Tstoc s' ! 0 ! 1 = Tstoc s' ! 0 ! 0 + dT * 1 + eta_T notebook_params * (sqrt 1 * real 0)
        \<and> Astoc s' ! 0 ! 1 = Astoc s' ! 0 ! 0
             + da_dt notebook_params (Tstoc s' ! 0 ! 0) (Astoc s' ! 0 ! 0) * 1
             + eta_a notebook_params * (sqrt 1 * real 1))"
proof -
  have h: "S0 notebook_params \<noteq> 0" "(0::real) \<le> 1"
    "has_shape (Tstoc \<lparr>Tstoc = [[280, 0]], Astoc = [[7 / 20, 0]], drawn = 0\<rparr>) 1 2"
    "has_shape (Astoc \<lparr>Tstoc = [[280, 0]], Astoc = [[7 / 20, 0]], drawn = 0\<rparr>) 1 2"
    "(2::nat) \<le> 2"
    by (simp_all add: notebook_params_def has_shape_def)
  from euler_maruyama_step [OF h, of real]
  obtain s' where run: "euler_maruyama notebook_params real 1 1 2
                 \<lparr>Tstoc = [[280, 0]], Astoc = [[7 / 20, 0]], drawn = 0\<rparr> = Inr s'"
    and rec: "\<forall>k i. k < (1::nat) \<and> 1 \<le> i \<and> i < (2::nat) \<longrightarrow>
        (\<exists>dT. dT_dt notebook_params (Tstoc s' ! k ! (i - 1)) (Astoc s' ! k ! (i - 1)) = Inr dT \<and>
           Tstoc s' ! k ! i = Tstoc s' ! k ! (i - 1) + dT * 1
              + eta_T notebook_params * (sqrt 1 * real (draw_index 0 2 k i)) \<and>
           Astoc s' ! k ! i = Astoc s' ! k ! (i - 1)
              + da_dt notebook_params (Tstoc s' ! k ! (i - 1)) (Astoc s' ! k ! (i - 1)) * 1
              + eta_a notebook_params * (sqrt 1 * real (Suc (draw_index 0 2 k i))))"
    by auto
  from rec [rule_format, of 0 1] run h show ?thesis
    by (simp add: draw_index_def has_shape_def)
qed

subsection \<open>Without noise\<close>

text \<open>
  C3. When \<open>eta_T = 0\<close> and \<open>eta_a = 0\<close>, every step of the loops is the forward-Euler
  step \<open>T[i] = T[i-1] + dT_dt (T[i-1], a[i-1]) * dt\<close>,
  \<open>a[i] = a[i-1] + da_dt (T[i-1], a[i-1]) * dt\<close>, whatever the generator yields, so the
  trajectory of every run is the forward-Euler integration of the coupled system from
  the initial state of that run over the same grid.
\<close>

theorem zero_noise_is_forward_euler:
  assumes "S0 p \<noteq> 0" and "0 \<le> dt" and "eta_T p = 0" and "eta_a p = 0"
    and "has_shape (Tstoc s) num_sims NumStep" and "has_shape (Astoc s) num_sims NumStep"
    and "ts_size \<le> NumStep"
  shows "\<exists>s'. euler_maruyama p z dt num_sims ts_size s = Inr s' \<and>
     (\<forall>k i. k < num_sims \<and> 1 \<le> i \<and> i < ts_size \<longrightarrow>
        (\<exists>dT. dT_dt p (Tstoc s' ! k ! (i - 1)) (Astoc s' ! k ! (i - 1)) = Inr dT \<and>
           Tstoc s' ! k ! i = Tstoc s' ! k ! (i - 1) + dT * dt \<and>
           Astoc s' ! k ! i = Astoc s' ! k ! (i - 1)
              + da_dt p (Tstoc s' ! k ! (i - 1)) (Astoc s' ! k ! (i - 1)) * dt)) \<and>
     (\<forall>k i. k < num_sims \<and> i < ts_size \<longrightarrow>
        forward_euler p dt (Tstoc s ! k ! 0, Astoc s ! k ! 0) i
          = Inr (Tstoc s' ! k ! i, Astoc s' ! k ! i))"
proof -
  from outer_loop [OF assms(1,2,5,6,7), of z]
  obtain s' where run: "euler_maruyama p z dt num_sims ts_size s = Inr s'"
    and fT: "array_frame (Tstoc s) (Tstoc s') num_sims ts_size"
    and fA: "array_frame (Astoc s) (Astoc s') num_sims ts_size"
    and rec: "\<forall>k i. k < num_sims \<and> 1 \<le> i \<and> i < ts_size \<longrightarrow>
              em_recurrence p z dt (Tstoc s' ! k) (Astoc s' ! k) i (draw_index (drawn s) ts_size k i)"
    by blast
  have step: "\<exists>dT. dT_dt p (Tstoc s' ! k ! (i - 1)) (Astoc s' ! k ! (i - 1)) = Inr dT \<and>
           Tstoc s' ! k ! i = Tstoc s' ! k ! (i - 1) + dT * dt \<and>
           Astoc s' ! k ! i = Astoc s' ! k ! (i - 1)
              + da_dt p (Tstoc s' ! k ! (i - 1)) (Astoc s' ! k ! (i - 1)) * dt"
    if "k < num_sims \<and> 1 \<le> i \<and> i < ts_size" for k i
  proof -
    from rec that
    have "em_recurrence p z dt (Tstoc s' ! k) (Astoc s' ! k) i (draw_index (drawn s) ts_size k i)"
      by blast
    then show ?thesis
      using assms(3,4)
      by (cases "dT_dt p (Tstoc s' ! k ! (i - 1)) (Astoc s' ! k ! (i - 1))")
         (simp_all add: em_recurrence_def)
  qed
  have traj: "forward_euler p dt (Tstoc s ! k ! 0, Astoc s ! k ! 0) i
          = Inr (Tstoc s' ! k ! i, Astoc s' ! k ! i)"
    if k: "k < num_sims" and i: "i < ts_size" for k i
    using i
  proof (induction i)
    case 0
    from fT fA have "Tstoc s' ! k ! 0 = Tstoc s ! k ! 0" "Astoc s' ! k ! 0 = Astoc s ! k ! 0"
      by (simp_all add: array_frame_def)
    then show ?case by simp
  next
    case (Suc i)
    then have IH: "forward_euler p dt (Tstoc s ! k ! 0, Astoc s ! k ! 0) i
          = Inr (Tstoc s' ! k ! i, Astoc s' ! k ! i)"
      by simp
    from step [of k "Suc i"] k Suc.prems
    obtain dT where "dT_dt p (Tstoc s' ! k ! i) (Astoc s' ! k ! i) = Inr dT"
      "Tstoc s' ! k ! Suc i = Tstoc s' ! k ! i + dT * dt"
      "Astoc s' ! k ! Suc i = Astoc s' ! k ! i + da_dt p (Tstoc s' ! k ! i) (Astoc s' ! k ! i) * dt"
      by auto
    with IH show ?case
      by (simp add: dState_dt_def)
  qed
  from run step traj show ?thesis by blast
qed

theorem zero_noise_is_forward_euler_witness:
  "S0 (notebook_params\<lparr>eta_T := 0, eta_a := 0\<rparr>) \<noteq> 0 \<and> (0::real) \<le> 1
   \<and> eta_T (notebook_params\<lparr>eta_T := 0, eta_a := 0\<rparr>) = 0
   \<and> eta_a (notebook_params\<lparr>eta_T := 0, eta_a := 0\<rparr>) = 0
   \<and> has_shape [[280, 0]] 1 2 \<and> has_shape [[7 / 20, 0]] 1 2 \<and> (2::nat) \<le> 2
   \<and> (\<exists>s'. euler_maruyama (notebook_params\<lparr>eta_T := 0, eta_a := 0\<rparr>) real 1 1 2
                 \<lparr>Tstoc = [[280, 0]], Astoc = [[7 / 20, 0]], drawn = 0\<rparr> = Inr s'
        \<and> forward_euler (notebook_params\<lparr>eta_T := 0, eta_a := 0\<rparr>) 1 (280, 7 / 20) 1
             = Inr (Tstoc s' ! 0 ! 1, Astoc s' ! 0 ! 1))"
proof -
  let ?p = "notebook_params\<lparr>eta_T := 0, eta_a := 0\<rparr>"
  let ?s = "\<lparr>Tstoc = [[280, 0]], Astoc = [[7 / 20, 0]], drawn = 0\<rparr>"
  have h: "S0 ?p \<noteq> 0" "(0::real) \<le> 1" "eta_T ?p = 0" "eta_a ?p = 0"
    "has_shape (Tstoc ?s) 1 2" "has_shape (Astoc ?s) 1 2" "(2::nat) \<le> 2"
    by (simp_all add: notebook_params_def has_shape_def)
  from zero_noise_is_forward_euler [OF h, of real]
  obtain s' where run: "euler_maruyama ?p real 1 1 2 ?s = Inr s'"
    and traj: "\<forall>k i. k < (1::nat) \<and> i < (2::nat) \<longrightarrow>
        forward_euler ?p 1 (Tstoc ?s ! k ! 0, Astoc ?s ! k ! 0) i
          = Inr (Tstoc s' ! k ! i, Astoc s' ! k ! i)"
    by blast
  from traj [rule_format, of 0 1]
  have "forward_euler ?p 1 (280, 7 / 20) 1 = Inr (Tstoc s' ! 0 ! 1, Astoc s' ! 0 ! 1)"
    by simp
  with run h show ?thesis
    by simp
qed

subsection \<open>The generator and reproducibility\<close>

lemma rel_sum_weaken:
  "rel_sum (=) P x y \<Longrightarrow> (\<And>a b. P a b \<Longrightarrow> Q a b) \<Longrightarrow> rel_sum (=) Q x y"
  by (cases x; cases y) auto

lemma em_step_rel:
  assumes "Tstoc s = Tstoc t" "Astoc s = Astoc t"
    and "z1 (drawn s) = z2 (drawn t)" "z1 (Suc (drawn s)) = z2 (Suc (drawn t))"
  shows "rel_sum (=) (\<lambda>s' t'. Tstoc s' = Tstoc t' \<and> Astoc s' = Astoc t' \<and>
            drawn s' = drawn s + 2 \<and> drawn t' = drawn t + 2)
          (em_step p z1 dt k i s) (em_step p z2 dt k i t)"
  using assms
  by (auto simp: em_step_def dW_def split: sum.splits)

lemma inner_rel:
  assumes eq: "Tstoc s = Tstoc t" "Astoc s = Astoc t"
    and win: "\<forall>m < 2 * (n - 1). z1 (drawn s + m) = z2 (drawn t + m)"
  shows "rel_sum (=) (\<lambda>s' t'. Tstoc s' = Tstoc t' \<and> Astoc s' = Astoc t' \<and>
            drawn s' = drawn s + 2 * (n - 1) \<and> drawn t' = drawn t + 2 * (n - 1))
          (for_loop [1..<n] (em_step p z1 dt k) s) (for_loop [1..<n] (em_step p z2 dt k) t)"
proof -
  define R where "R = (\<lambda>j (s'::sim) (t'::sim). Tstoc s' = Tstoc t' \<and> Astoc s' = Astoc t' \<and>
            drawn s' = drawn s + 2 * j \<and> drawn t' = drawn t + 2 * j)"
  have R0: "R 0 s t" using eq by (simp add: R_def)
  have step: "rel_sum (=) (R (Suc j)) (em_step p z1 dt k ([1..<n] ! j) s')
                 (em_step p z2 dt k ([1..<n] ! j) t')"
    if j: "j < length [1..<n]" and r: "R j s' t'" for j s' t'
  proof -
    from j have "2 * j < 2 * (n - 1)" "Suc (2 * j) < 2 * (n - 1)" by simp_all
    with win have "z1 (drawn s + 2 * j) = z2 (drawn t + 2 * j)"
      "z1 (drawn s + Suc (2 * j)) = z2 (drawn t + Suc (2 * j))" by blast+
    with r have z: "z1 (drawn s') = z2 (drawn t')" "z1 (Suc (drawn s')) = z2 (Suc (drawn t'))"
      by (simp_all add: R_def)
    from r have e: "Tstoc s' = Tstoc t'" "Astoc s' = Astoc t'" by (simp_all add: R_def)
    have "rel_sum (=) (\<lambda>s'' t''. Tstoc s'' = Tstoc t'' \<and> Astoc s'' = Astoc t'' \<and>
            drawn s'' = drawn s' + 2 \<and> drawn t'' = drawn t' + 2)
          (em_step p z1 dt k ([1..<n] ! j) s') (em_step p z2 dt k ([1..<n] ! j) t')"
      by (rule em_step_rel [OF e z])
    then show ?thesis
    proof (rule rel_sum_weaken)
      fix a b :: sim
      assume "Tstoc a = Tstoc b \<and> Astoc a = Astoc b \<and>
            drawn a = drawn s' + 2 \<and> drawn b = drawn t' + 2"
      with r show "R (Suc j) a b" by (simp add: R_def)
    qed
  qed
  from for_loop_rel [of R s t "[1..<n]", OF R0 step]
  show ?thesis by (simp add: R_def)
qed

lemma outer_rel:
  assumes eq: "Tstoc s = Tstoc t" "Astoc s = Astoc t"
    and win: "\<forall>m < 2 * (K * (n - 1)). z1 (drawn s + m) = z2 (drawn t + m)"
  shows "rel_sum (=) (\<lambda>s' t'. Tstoc s' = Tstoc t' \<and> Astoc s' = Astoc t' \<and>
            drawn s' = drawn s + 2 * (K * (n - 1)) \<and> drawn t' = drawn t + 2 * (K * (n - 1)))
          (euler_maruyama p z1 dt K n s) (euler_maruyama p z2 dt K n t)"
proof -
  define R where "R = (\<lambda>j (s'::sim) (t'::sim). Tstoc s' = Tstoc t' \<and> Astoc s' = Astoc t' \<and>
            drawn s' = drawn s + 2 * (j * (n - 1)) \<and> drawn t' = drawn t + 2 * (j * (n - 1)))"
  have R0: "R 0 s t" using eq by (simp add: R_def)
  have step: "rel_sum (=) (R (Suc j)) (for_loop [1..<n] (em_step p z1 dt ([0..<K] ! j)) s')
                 (for_loop [1..<n] (em_step p z2 dt ([0..<K] ! j)) t')"
    if j: "j < length [0..<K]" and r: "R j s' t'" for j s' t'
  proof -
    from j have "Suc j * (n - 1) \<le> K * (n - 1)"
      by (intro mult_le_mono1) simp
    then have le: "2 * (j * (n - 1)) + 2 * (n - 1) \<le> 2 * (K * (n - 1))"
      by simp
    have w: "\<forall>m < 2 * (n - 1). z1 (drawn s' + m) = z2 (drawn t' + m)"
    proof (intro allI impI)
      fix m assume "m < 2 * (n - 1)"
      with le have "2 * (j * (n - 1)) + m < 2 * (K * (n - 1))" by linarith
      with win have "z1 (drawn s + (2 * (j * (n - 1)) + m)) = z2 (drawn t + (2 * (j * (n - 1)) + m))"
        by blast
      with r show "z1 (drawn s' + m) = z2 (drawn t' + m)"
        by (simp add: R_def add.assoc)
    qed
    from r have e: "Tstoc s' = Tstoc t'" "Astoc s' = Astoc t'" by (simp_all add: R_def)
    from inner_rel [OF e w, of p dt "[0..<K] ! j"]
    show ?thesis
    proof (rule rel_sum_weaken)
      fix a b :: sim
      assume "Tstoc a = Tstoc b \<and> Astoc a = Astoc b \<and>
            drawn a = drawn s' + 2 * (n - 1) \<and> drawn b = drawn t' + 2 * (n - 1)"
      with r show "R (Suc j) a b" by (simp add: R_def)
    qed
  qed
  from for_loop_rel [of R s t "[0..<K]", OF R0 step]
  show ?thesis by (simp add: R_def euler_maruyama_def)
qed

text \<open>
  C2. Two invocations with identical parameters, initial state, time grid and run count
  and the same seed produce identical ensembles (or raise the same exception): the
  simulator is a function of its inputs and of the generator. A seed decides the
  variates that the generator yields from then on, and of the generator an invocation
  reads the next \<open>2 * num_sims * (ts_size - 1)\<close> variates only: two invocations to which
  the generator yields the same variates produce the same ensemble, whatever it had
  yielded before, and an invocation that returns has advanced the generator by that many
  draws. (The notebook itself never seeds \<^verbatim>\<open>np.random\<close>.)
\<close>

theorem ensemble_determined_by_draws:
  assumes "\<forall>m < 2 * (num_sims * (ts_size - 1)). z1 (n1 + m) = z2 (n2 + m)"
  shows "ensemble_of (run_ensemble p z1 dt num_sims NumStep ts_size T_init a_init n1)
           = ensemble_of (run_ensemble p z2 dt num_sims NumStep ts_size T_init a_init n2)
     \<and> (\<forall>s'. run_ensemble p z1 dt num_sims NumStep ts_size T_init a_init n1 = Inr s'
            \<longrightarrow> drawn s' = n1 + 2 * (num_sims * (ts_size - 1)))"
proof (cases "NumStep = 0")
  case True
  then show ?thesis by (simp add: run_ensemble_def init_arrays_def)
next
  case False
  define T where "T = map (\<lambda>r. r[0 := T_init]) (replicate num_sims (replicate NumStep (0::real)))"
  define A where "A = map (\<lambda>r. r[0 := a_init]) (replicate num_sims (replicate NumStep (0::real)))"
  let ?s1 = "\<lparr>Tstoc = T, Astoc = A, drawn = n1\<rparr>"
  let ?s2 = "\<lparr>Tstoc = T, Astoc = A, drawn = n2\<rparr>"
  have r1: "run_ensemble p z1 dt num_sims NumStep ts_size T_init a_init n1
              = euler_maruyama p z1 dt num_sims ts_size ?s1"
    and r2: "run_ensemble p z2 dt num_sims NumStep ts_size T_init a_init n2
              = euler_maruyama p z2 dt num_sims ts_size ?s2"
    using False by (simp_all add: run_ensemble_def init_arrays_def T_def A_def)
  have "rel_sum (=) (\<lambda>s' t'. Tstoc s' = Tstoc t' \<and> Astoc s' = Astoc t' \<and>
            drawn s' = drawn ?s1 + 2 * (num_sims * (ts_size - 1)) \<and>
            drawn t' = drawn ?s2 + 2 * (num_sims * (ts_size - 1)))
          (euler_maruyama p z1 dt num_sims ts_size ?s1) (euler_maruyama p z2 dt num_sims ts_size ?s2)"
    by (rule outer_rel) (use assms in simp_all)
  then show ?thesis
    unfolding r1 r2
    by (cases "euler_maruyama p z1 dt num_sims ts_size ?s1";
        cases "euler_maruyama p z2 dt num_sims ts_size ?s2")
       (simp_all add: ensemble_of_def)
qed

theorem ensemble_determined_by_draws_witness:
  "real (0 + 0) = (\<lambda>n. real (n - 2)) (2 + 0) \<and> real (0 + 1) = (\<lambda>n. real (n - 2)) (2 + 1)
   \<and> ensemble_of (run_ensemble notebook_params real 1 1 2 2 280 (7 / 20) 0)
       = ensemble_of (run_ensemble notebook_params (\<lambda>n. real (n - 2)) 1 1 2 2 280 (7 / 20) 2)"
proof -
  have h: "\<forall>m < 2 * (1 * (2 - 1)). real (0 + m) = (\<lambda>n. real (n - 2)) (2 + m)"
    by simp
  from ensemble_determined_by_draws [OF h, of notebook_params 1 2 280 "7 / 20"]
  show ?thesis by simp
qed

section \<open>Statistics of the ensemble\<close>

lemma sum_list_nth: "sum_list (map f x) = (\<Sum>i<length x. f (x ! i))"
proof -
  have "sum_list (map f x) = (\<Sum>i = 0..<length (map f x). map f x ! i)"
    by (rule sum_list_sum_nth)
  also have "\<dots> = (\<Sum>i<length x. f (x ! i))"
    by (simp add: lessThan_atLeast0)
  finally show ?thesis .
qed

lemma np_mean_arithmetic: "x \<noteq> [] \<Longrightarrow> np_mean x = Fin (arithmetic_mean x)"
  using sum_list_nth [of "\<lambda>v. v" x] by (simp add: np_mean_def arithmetic_mean_def)

lemma np_std_population: "x \<noteq> [] \<Longrightarrow> np_std x = Fin (population_std x)"
  using sum_list_nth [of "\<lambda>v. v" x]
    sum_list_nth [of "\<lambda>v. (abs (v - arithmetic_mean x)) ^ 2" x]
  by (simp add: np_std_def population_std_def arithmetic_mean_def Let_def)

lemma per_run_Inr:
  assumes "num_sims \<le> length M"
  shows "per_run stat M num_sims = Inr (map stat (take num_sims M))"
proof -
  define I where "I = (\<lambda>j out. out = map stat (take j M) @ replicate (num_sims - j) (Fin 0))"
  let ?body = "\<lambda>k out. case row M k of Inl e \<Rightarrow> Inl e | Inr r \<Rightarrow> Inr (out[k := stat r])"
  have I0: "I 0 (replicate num_sims (Fin 0))"
    by (simp add: I_def)
  have step: "\<exists>out'. ?body ([0..<num_sims] ! j) out = Inr out' \<and> I (Suc j) out'"
    if j: "j < length [0..<num_sims]" and inv: "I j out" for j out
  proof -
    from j assms have jn: "j < num_sims" and jM: "j < length M" by simp_all
    have "out[j := stat (M ! j)] = map stat (take (Suc j) M) @ replicate (num_sims - Suc j) (Fin 0)"
    proof -
      have "replicate (num_sims - j) (Fin 0) = Fin 0 # replicate (num_sims - Suc j) (Fin 0)"
        using jn by (simp add: Suc_diff_Suc flip: replicate_Suc)
      with inv jM show ?thesis
        by (simp add: I_def list_update_append take_Suc_conv_app_nth)
    qed
    with jn jM show ?thesis
      by (simp add: row_def I_def)
  qed
  from for_loop_total [of I "replicate num_sims (Fin 0)" "[0..<num_sims]" ?body, OF I0 step]
  show ?thesis
    by (auto simp: per_run_def I_def)
qed

lemma summarize_Inr:
  assumes "num_sims \<le> length M"
  shows "summarize M num_sims =
     Inr \<lparr>std_list = map np_std (take num_sims M), mean_list = map np_mean (take num_sims M),
          cov_list = map (\<lambda>r. np_divide (np_std r) (np_mean r)) (take num_sims M)\<rparr>"
  using assms
  by (simp add: summarize_def per_run_Inr np_divide_arrays_def zip_map_map map_zip_map)
     (simp add: zip_same_conv_map)

text \<open>
  C10. For each run, the standard deviation that the statistics cells compute is the
  population standard deviation (normalised by the number \<open>N\<close> of time samples, not
  \<open>N - 1\<close>) of the whole temperature series of the run, first sample included; the mean
  is the arithmetic mean of the same series; and the coefficient of variation is the
  quotient of these two numbers (numpy's quotient, which is the real quotient when the
  mean is not zero).
\<close>

theorem per_run_statistics:
  assumes "num_sims \<le> length M" and "k < num_sims" and "M ! k \<noteq> []"
  shows "\<exists>r. summarize M num_sims = Inr r \<and>
     mean_list r ! k = Fin (arithmetic_mean (M ! k)) \<and>
     std_list r ! k = Fin (population_std (M ! k)) \<and>
     cov_list r ! k = np_divide (std_list r ! k) (mean_list r ! k) \<and>
     (arithmetic_mean (M ! k) \<noteq> 0 \<longrightarrow>
        cov_list r ! k = Fin (population_std (M ! k) / arithmetic_mean (M ! k)))"
  using assms
  by (simp add: summarize_Inr np_mean_arithmetic np_std_population)

theorem per_run_statistics_witness:
  "(1::nat) \<le> length [[1, 3 :: real]] \<and> (0::nat) < 1 \<and> [[1, 3 :: real]] ! 0 \<noteq> []
   \<and> arithmetic_mean [1, 3] = 2 \<and> population_std [1, 3] = 1
   \<and> summarize [[1, 3]] 1 = Inr \<lparr>std_list = [Fin 1], mean_list = [Fin 2], cov_list = [Fin (1 / 2)]\<rparr>"
proof -
  have m: "arithmetic_mean [1, 3] = 2"
    by (simp add: arithmetic_mean_def lessThan_Suc numeral_2_eq_2)
  have s: "population_std [1, 3] = 1"
    by (simp add: population_std_def m lessThan_Suc numeral_2_eq_2)
  from per_run_statistics [of 1 "[[1, 3]]" 0]
  obtain r where "summarize [[1, 3]] 1 = Inr r" "mean_list r ! 0 = Fin 2" "std_list r ! 0 = Fin 1"
    "cov_list r ! 0 = Fin (1 / 2)"
    by (auto simp: m s)
  moreover have "summarize [[1, 3]] 1 = Inr \<lparr>std_list = [np_std [1, 3]], mean_list = [np_mean [1, 3]],
     cov_list = [np_divide (np_std [1, 3]) (np_mean [1, 3])]\<rparr>"
    by (simp add: summarize_Inr)
  ultimately show ?thesis using m s by auto
qed

lemma np_divide_by_zero:
  shows "np_divide s (Fin 0) \<in> {PInf, NInf, NaN}" and "np_divide s NegZero \<in> {PInf, NInf, NaN}"
  by (cases s; simp)+

text \<open>
  C5, as the notebook has it. For a run whose temporal mean temperature is exactly
  zero no condition is signalled: the statistics return, and the quotient of the arrays
  gives that run a coefficient of variation that is an infinity or a nan. So does the
  quotient of any two arrays at an entry where the divisor is a zero of either sign.
\<close>

theorem zero_mean_cov_inf_or_nan:
  assumes "num_sims \<le> length M" and "k < num_sims" and "np_mean (M ! k) = Fin 0"
  shows "(\<exists>r. summarize M num_sims = Inr r \<and>
            mean_list r ! k = Fin 0 \<and> cov_list r ! k \<in> {PInf, NInf, NaN})
     \<and> (\<forall>stds means j. j < length stds \<and> j < length means \<and> means ! j \<in> {Fin 0, NegZero}
            \<longrightarrow> np_divide_arrays stds means ! j \<in> {PInf, NInf, NaN})"
proof (intro conjI allI impI)
  from assms np_divide_by_zero(1) [of "np_std (M ! k)"]
  show "\<exists>r. summarize M num_sims = Inr r \<and>
            mean_list r ! k = Fin 0 \<and> cov_list r ! k \<in> {PInf, NInf, NaN}"
    by (simp add: summarize_Inr)
next
  fix stds means :: "npfloat list" and j
  assume "j < length stds \<and> j < length means \<and> means ! j \<in> {Fin 0, NegZero}"
  then have j: "j < length stds" "j < length means" and "means ! j = Fin 0 \<or> means ! j = NegZero"
    by simp_all
  then have "np_divide (stds ! j) (means ! j) \<in> {PInf, NInf, NaN}"
    using np_divide_by_zero(1) [of "stds ! j"] np_divide_by_zero(2) [of "stds ! j"] by metis
  with j show "np_divide_arrays stds means ! j \<in> {PInf, NInf, NaN}"
    by (simp add: np_divide_arrays_def)
qed

theorem zero_mean_cov_inf_or_nan_witness:
  "(1::nat) \<le> length [[1, - 1 :: real]] \<and> (0::nat) < 1 \<and> np_mean ([[1, - 1]] ! 0) = Fin 0
   \<and> summarize [[1, - 1]] 1 = Inr \<lparr>std_list = [Fin 1], mean_list = [Fin 0], cov_list = [PInf]\<rparr>
   \<and> np_divide_arrays [Fin 1, Fin 0] [NegZero, Fin 0] = [NInf, NaN]"
proof -
  have h: "(1::nat) \<le> length [[1, - 1 :: real]]" "(0::nat) < 1" "np_mean ([[1, - 1]] ! 0) = Fin 0"
    by (simp_all add: np_mean_def)
  have s: "np_std [1, - 1] = Fin 1"
    by (simp add: np_std_def Let_def)
  from zero_mean_cov_inf_or_nan [OF h]
  obtain r where r: "summarize [[1, - 1]] 1 = Inr r" "mean_list r ! 0 = Fin 0"
    "cov_list r ! 0 \<in> {PInf, NInf, NaN}"
    by blast
  have "summarize [[1, - 1]] 1 = Inr \<lparr>std_list = [np_std [1, - 1]], mean_list = [np_mean [1, - 1]],
     cov_list = [np_divide (np_std [1, - 1]) (np_mean [1, - 1])]\<rparr>"
    by (simp add: summarize_Inr)
  with r h s show ?thesis
    by (auto simp: np_divide_arrays_def)
qed

text \<open>
  C5 as stated fails: for the run \<open>[280, -280]\<close>, of mean zero, the statistics return
  normally with the coefficient of variation \<open>+inf\<close>.
\<close>

theorem zero_mean_run_not_signalled:
  "np_mean [280, - 280] = Fin 0
   \<and> summarize [[280, - 280]] 1
       = Inr \<lparr>std_list = [Fin 280], mean_list = [Fin 0], cov_list = [PInf]\<rparr>"
proof -
  have "sqrt 78400 = sqrt (280 ^ 2)" by simp
  also have "\<dots> = 280" by (simp only: real_sqrt_abs)
  finally have sq: "sqrt 78400 = 280" .
  have m: "np_mean [280, - 280] = Fin 0" by (simp add: np_mean_def)
  have s: "np_std [280, - 280] = Fin 280" by (simp add: np_std_def Let_def sq)
  show ?thesis by (simp add: summarize_Inr m s)
qed

end
